theory Spec2Isabelle
  imports Main "HOL-Library.Char_ord" "HOL-Library.List_Lexorder" "HOL-Library.AList"
    "HOL-Library.Sublist"
begin

section \<open>Filename sanitisation (storage/file\_manager.cpp)\<close>

text \<open>
  A \<open>std::string\<close> is a sequence of bytes, hence a \<^typ>\<open>string\<close> (a list of 8-bit
  \<^typ>\<open>char\<close>s). \<open>std::isalnum\<close> is read in the default "C" locale, the only locale the
  program runs in (it never calls \<open>setlocale\<close>): the ASCII digits and letters.
\<close>

definition isalnum :: "char \<Rightarrow> bool" where
  "isalnum c =
     (let n = (of_char c :: nat)
      in (48 \<le> n \<and> n \<le> 57) \<or> (65 \<le> n \<and> n \<le> 90) \<or> (97 \<le> n \<and> n \<le> 122))"

definition is_valid_json_character :: "char \<Rightarrow> bool" where
  "is_valid_json_character c = (isalnum c \<or> c = CHR ''_'' \<or> c = CHR ''-'')"

definition JSON_EXTENSION :: string where
  "JSON_EXTENSION = ''.json''"

definition MAX_JSON_SIZE_BYTES :: nat where
  "MAX_JSON_SIZE_BYTES = 1024 * 1024"

text \<open>
  The body of the \<open>for (char c : filename)\<close> loop of \<open>sanitize_filename\<close>, as a step on
  the string \<open>result\<close> built so far; \<open>push_back\<close> appends at the end, \<open>back()\<close> is
  \<^const>\<open>last\<close> and is only read behind the \<open>!result.empty()\<close> test. \<open>CHR 0x5C\<close> is the
  backslash and \<open>CHR 0x00\<close> the null character.
\<close>

definition sanitize_step :: "string \<Rightarrow> char \<Rightarrow> string" where
  "sanitize_step result c =
     (if c = CHR ''/'' \<or> c = CHR 0x5C \<or> c = CHR 0x00 then result
      else if c = CHR ''.'' \<and> result \<noteq> [] \<and> last result = CHR ''.'' then result
      else if c = CHR ''.'' then result @ [CHR ''_'']
      else if is_valid_json_character c then result @ [c]
      else result)"

text \<open>The trailing \<open>while\<close> loop: \<open>pop_back\<close> while the last character is \<open>_\<close> or \<open>-\<close>.\<close>

function strip_trailing :: "string \<Rightarrow> string" where
  "strip_trailing result =
     (if result \<noteq> [] \<and> (last result = CHR ''_'' \<or> last result = CHR ''-'')
      then strip_trailing (butlast result)
      else result)"
  by pat_completeness auto
termination
  by (relation "measure length") auto

declare strip_trailing.simps [simp del]

definition sanitize_filename :: "string \<Rightarrow> string" where
  "sanitize_filename filename = strip_trailing (foldl sanitize_step [] filename)"

text \<open>
  \<open>ensure_json_extension\<close>: \<open>substr(size - 5)\<close> is the last five bytes, read only when the
  name has at least five.
\<close>

definition ensure_json_extension :: "string \<Rightarrow> string" where
  "ensure_json_extension filename =
     (if length filename \<ge> length JSON_EXTENSION
         \<and> drop (length filename - length JSON_EXTENSION) filename = JSON_EXTENSION
      then filename
      else filename @ JSON_EXTENSION)"

text \<open>The class \<open>FileManager\<close> has one field, the base data directory.\<close>

record FileManager =
  data_directory :: string

definition get_key_directory :: "FileManager \<Rightarrow> string \<Rightarrow> string" where
  "get_key_directory fm key = data_directory fm @ ''/'' @ key"

definition get_file_path :: "FileManager \<Rightarrow> string \<Rightarrow> string \<Rightarrow> string" where
  "get_file_path fm key filename = get_key_directory fm key @ ''/'' @ filename"

text \<open>A raw name with both kinds of traversal sequence: \<open>../\<close>, and \<open>..\<close> followed by a
  backslash.\<close>

definition traversal_name :: string where
  "traversal_name = ''../..'' @ CHR 0x5C # ''etc/passwd''"

subsection \<open>The specification's reference transform\<close>

text \<open>
  Written from the words of the specification, not from the code: the raw name is read
  character by character with the output so far in hand; \<open>/\<close>, the backslash and the null
  character are dropped; a \<open>.\<close> that comes right after a \<open>.\<close> in the output so far is
  dropped, any other \<open>.\<close> becomes \<open>_\<close>; every other character is kept only if it is
  alphanumeric, \<open>_\<close> or \<open>-\<close>; at the end the trailing \<open>_\<close> and \<open>-\<close> are stripped.
\<close>

fun spec_scan :: "string \<Rightarrow> string \<Rightarrow> string" where
  "spec_scan out [] = out"
| "spec_scan out (c # cs) =
     (if c \<in> {CHR ''/'', CHR 0x5C, CHR 0x00} then spec_scan out cs
      else if c = CHR ''.'' then
        (if out \<noteq> [] \<and> last out = CHR ''.'' then spec_scan out cs
         else spec_scan (out @ ''_'') cs)
      else if isalnum c \<or> c \<in> {CHR ''_'', CHR ''-''} then spec_scan (out @ [c]) cs
      else spec_scan out cs)"

definition spec_strip :: "string \<Rightarrow> string" where
  "spec_strip out = rev (dropWhile (\<lambda>c. c \<in> {CHR ''_'', CHR ''-''}) (rev out))"

definition spec_sanitize :: "string \<Rightarrow> string" where
  "spec_sanitize raw = spec_strip (spec_scan [] raw)"

subsection \<open>Path resolution\<close>

text \<open>
  How the operating system reads a path string: it is cut at every \<open>/\<close> into components,
  and the components are walked from the left; an empty component and \<open>.\<close> stay in place,
  \<open>..\<close> goes back to the parent, any other name goes down into that entry. The walk below
  is the lexical one (no symbolic links); \<open>..\<close> at the start of a relative path is kept.
\<close>

primrec split_path :: "string \<Rightarrow> string list" where
  "split_path [] = [[]]"
| "split_path (c # cs) =
     (if c = CHR ''/'' then [] # split_path cs
      else (case split_path cs of [] \<Rightarrow> [[c]] | x # xs \<Rightarrow> (c # x) # xs))"

definition walk_step :: "string list \<Rightarrow> string \<Rightarrow> string list" where
  "walk_step stack c =
     (if c = [] \<or> c = ''.'' then stack
      else if c = ''..'' \<and> stack \<noteq> [] \<and> last stack \<noteq> ''..'' then butlast stack
      else stack @ [c])"

definition resolve_path :: "string \<Rightarrow> string list" where
  "resolve_path p = foldl walk_step [] (split_path p)"

section \<open>The document store (storage/file\_manager.cpp)\<close>

datatype FileError =
    KeyDirectoryNotFound
  | FileNotFound
  | InvalidJson
  | FileTooLarge
  | InvalidFilename
  | IoError
  | JsonEncodingError

subsection \<open>The JSON library\<close>

text \<open>
  \<open>nlohmann::json\<close> is a library outside this repository. Its values are modelled by a
  datatype (numbers as integers: no function of the repository looks inside a number), and
  the three library functions the program calls are parameters of the model:
  \<open>dump\<close> (\<open>None\<close> when the library throws \<open>json::exception\<close>), \<open>parse\<close> and
  \<open>merge_patch\<close>. A call of \<open>parse\<close> ends in one of three ways, which the callers tell
  apart in their \<open>catch\<close> clauses: it returns the value, it throws \<open>parse_error\<close>, or it
  throws another exception (\<open>out_of_range\<close> for a number that overflows), kept with its
  \<open>what()\<close> text.
\<close>

datatype json =
    JNull
  | JBool bool
  | JNumber int
  | JString string
  | JArray "json list"
  | JObject "(string \<times> json) list"

datatype parse_result = Parsed json | ParseError | OtherException string

record nlohmann =
  dump :: "json \<Rightarrow> string option"
  parse :: "string \<Rightarrow> parse_result"
  merge_patch :: "json \<Rightarrow> json \<Rightarrow> json"

subsection \<open>The file system\<close>

text \<open>
  The file system is what the operating system answers for a path string: a finite
  association from paths to nodes, a regular file with its bytes or a directory. The order
  of the association is the order in which a directory is enumerated. How an operation of
  the operating system ends is an input of the model: opening a file for writing may fail;
  a write may stop after some bytes, either seen by the stream (\<open>WriteFails\<close>) or, when the
  bytes were still in the stream's buffer and are lost as the stream is closed, not seen
  by it (\<open>FlushFails\<close>); opening or reading a file and enumerating a directory may fail.
\<close>

datatype node = RegularFile string | Directory

type_synonym filesystem = "(string \<times> node) list"

datatype write_outcome = WriteOk | OpenFails | WriteFails nat | FlushFails nat

definition path_exists :: "filesystem \<Rightarrow> string \<Rightarrow> bool" where
  "path_exists fs p = (map_of fs p \<noteq> None)"

definition is_directory :: "filesystem \<Rightarrow> string \<Rightarrow> bool" where
  "is_directory fs p = (map_of fs p = Some Directory)"

definition is_regular_file :: "node \<Rightarrow> bool" where
  "is_regular_file nd = (case nd of RegularFile _ \<Rightarrow> True | Directory \<Rightarrow> False)"

text \<open>
  \<open>std::ofstream file(path, std::ios::binary)\<close>: the file is created, or emptied when it
  exists; a directory cannot be opened for writing.
\<close>

definition open_ofstream :: "write_outcome \<Rightarrow> filesystem \<Rightarrow> string \<Rightarrow> filesystem option" where
  "open_ofstream io fs p =
     (if io = OpenFails \<or> is_directory fs p then None
      else Some (AList.update p (RegularFile []) fs))"

text \<open>
  \<open>file << json_string\<close>, then \<open>file.fail()\<close>, then the stream's destructor: whether
  \<open>file.fail()\<close> is true, and the bytes the file holds in the end.
\<close>

definition write_ofstream ::
  "write_outcome \<Rightarrow> filesystem \<Rightarrow> string \<Rightarrow> string \<Rightarrow> bool \<times> filesystem" where
  "write_ofstream io fs p bytes =
     (case io of
        WriteFails n \<Rightarrow> (True, AList.update p (RegularFile (take n bytes)) fs)
      | FlushFails n \<Rightarrow> (False, AList.update p (RegularFile (take n bytes)) fs)
      | _ \<Rightarrow> (False, AList.update p (RegularFile bytes) fs))"

text \<open>
  \<open>std::ifstream\<close> and the \<open>istreambuf_iterator\<close> pair: the whole content of the file, or
  \<open>None\<close> when the file cannot be opened or the read throws \<open>ios_base::failure\<close>, which is
  what \<open>read_ok\<close> decides for a regular file. A directory cannot be read.
\<close>

definition read_ifstream :: "bool \<Rightarrow> filesystem \<Rightarrow> string \<Rightarrow> string option" where
  "read_ifstream read_ok fs p =
     (if \<not> read_ok then None
      else (case map_of fs p of
              None \<Rightarrow> None
            | Some (RegularFile content) \<Rightarrow> Some content
            | Some Directory \<Rightarrow> None))"

text \<open>
  \<open>std::filesystem::directory_iterator\<close>: the entries directly inside \<open>dir\<close>, each with its
  name (the path below \<open>dir/\<close>, one component) and its node, every path once.
\<close>

definition entry_name :: "string \<Rightarrow> string \<Rightarrow> string option" where
  "entry_name dir p =
     (let prefix = dir @ ''/''; name = drop (length prefix) p
      in if take (length prefix) p = prefix \<and> name \<noteq> [] \<and> CHR ''/'' \<notin> set name
         then Some name else None)"

definition directory_iterator :: "filesystem \<Rightarrow> string \<Rightarrow> (string \<times> node) list" where
  "directory_iterator fs dir =
     List.map_filter (\<lambda>(p, nd). map_option (\<lambda>name. (name, nd)) (entry_name dir p))
       (AList.clearjunk fs)"

subsection \<open>The operations\<close>

definition key_directory_exists :: "FileManager \<Rightarrow> filesystem \<Rightarrow> string \<Rightarrow> bool" where
  "key_directory_exists fm fs key =
     (let key_dir = get_key_directory fm key
      in path_exists fs key_dir \<and> is_directory fs key_dir)"

text \<open>
  \<open>put_json\<close> returns its result and the file system it leaves. The \<open>try\<close> block is the
  \<open>case\<close> on \<open>dump\<close>: the only call in it that throws \<open>json::exception\<close>.
\<close>

definition put_json ::
  "nlohmann \<Rightarrow> FileManager \<Rightarrow> write_outcome \<Rightarrow> filesystem \<Rightarrow> string \<Rightarrow> string \<Rightarrow> json
     \<Rightarrow> (FileError + unit) \<times> filesystem" where
  "put_json lib fm io fs key filename data =
     (if key = [] then (Inl InvalidFilename, fs)
      else if \<not> key_directory_exists fm fs key then (Inl KeyDirectoryNotFound, fs)
      else
        let sanitized_filename = sanitize_filename filename
        in if sanitized_filename = [] then (Inl InvalidFilename, fs)
           else
             let filename_with_ext = ensure_json_extension sanitized_filename;
                 file_path = get_file_path fm key filename_with_ext
             in (case dump lib data of
                   None \<Rightarrow> (Inl JsonEncodingError, fs)
                 | Some json_string \<Rightarrow>
                     if length json_string > MAX_JSON_SIZE_BYTES then (Inl FileTooLarge, fs)
                     else (case open_ofstream io fs file_path of
                             None \<Rightarrow> (Inl IoError, fs)
                           | Some opened \<Rightarrow>
                               (case write_ofstream io opened file_path json_string of
                                  (True, fs') \<Rightarrow> (Inl IoError, fs')
                                | (False, fs') \<Rightarrow> (Inr (), fs')))))"

text \<open>
  \<open>get_json\<close> changes nothing. A file that cannot be opened is returned as \<open>IoError\<close>; in
  the \<open>try\<close> block a \<open>parse_error\<close> is caught as \<open>InvalidJson\<close>, and any other exception, a
  failed read or another exception of \<open>parse\<close>, as \<open>IoError\<close>.
\<close>

definition get_json ::
  "nlohmann \<Rightarrow> FileManager \<Rightarrow> bool \<Rightarrow> filesystem \<Rightarrow> string \<Rightarrow> string \<Rightarrow> FileError + json" where
  "get_json lib fm read_ok fs key filename =
     (if key = [] \<or> filename = [] then Inl InvalidFilename
      else if \<not> key_directory_exists fm fs key then Inl KeyDirectoryNotFound
      else
        let sanitized_filename = sanitize_filename filename;
            filename_with_ext = ensure_json_extension sanitized_filename;
            file_path = get_file_path fm key filename_with_ext
        in if \<not> path_exists fs file_path then Inl FileNotFound
           else (case read_ifstream read_ok fs file_path of
                   None \<Rightarrow> Inl IoError
                 | Some content \<Rightarrow>
                     if length content > MAX_JSON_SIZE_BYTES then Inl FileTooLarge
                     else (case parse lib content of
                             Parsed data \<Rightarrow> Inr data
                           | ParseError \<Rightarrow> Inl InvalidJson
                           | OtherException _ \<Rightarrow> Inl IoError)))"

text \<open>The body of the loop over the directory entries in \<open>list_files\<close>.\<close>

definition list_step :: "string list \<Rightarrow> string \<times> node \<Rightarrow> string list" where
  "list_step files entry =
     (if is_regular_file (snd entry) then
        (let filename = fst entry
         in if length filename \<ge> length JSON_EXTENSION
               \<and> drop (length filename - length JSON_EXTENSION) filename = JSON_EXTENSION
            then files @ [filename] else files)
      else files)"

text \<open>
  \<open>std::sort\<close> on \<open>std::string\<close>s orders them by \<open>operator<\<close>: lexicographically, bytes
  compared as unsigned values. That is the order on \<^typ>\<open>string\<close> here, and a sorted
  list of strings is the same whichever sorting algorithm produced it.
\<close>

definition list_files ::
  "FileManager \<Rightarrow> bool \<Rightarrow> filesystem \<Rightarrow> string \<Rightarrow> FileError + string list" where
  "list_files fm iterate_ok fs key =
     (if key = [] then Inl InvalidFilename
      else if \<not> key_directory_exists fm fs key then Inl KeyDirectoryNotFound
      else
        let key_dir = get_key_directory fm key
        in if \<not> iterate_ok then Inl IoError
           else Inr (sort (foldl list_step [] (directory_iterator fs key_dir))))"

section \<open>The request handler (handlers/api\_handler.cpp)\<close>

datatype HttpStatus = Ok | BadRequest | NotFound | PayloadTooLarge | InternalServerError

definition status_to_int :: "HttpStatus \<Rightarrow> int" where
  "status_to_int status =
     (case status of
        Ok \<Rightarrow> 200
      | BadRequest \<Rightarrow> 400
      | NotFound \<Rightarrow> 404
      | PayloadTooLarge \<Rightarrow> 413
      | InternalServerError \<Rightarrow> 500)"

record ApiResult =
  status :: HttpStatus
  message :: string
  data :: "json option"

definition file_error_to_api_result :: "FileError \<Rightarrow> ApiResult" where
  "file_error_to_api_result error =
     (case error of
        KeyDirectoryNotFound \<Rightarrow>
          \<lparr>status = NotFound, message = ''Key directory not found'', data = None\<rparr>
      | FileNotFound \<Rightarrow> \<lparr>status = NotFound, message = ''File not found'', data = None\<rparr>
      | InvalidJson \<Rightarrow> \<lparr>status = BadRequest, message = ''Invalid JSON data'', data = None\<rparr>
      | FileTooLarge \<Rightarrow>
          \<lparr>status = PayloadTooLarge, message = ''File exceeds maximum size (1MB)'', data = None\<rparr>
      | InvalidFilename \<Rightarrow> \<lparr>status = BadRequest, message = ''Invalid filename'', data = None\<rparr>
      | IoError \<Rightarrow> \<lparr>status = InternalServerError, message = ''File I/O error'', data = None\<rparr>
      | JsonEncodingError \<Rightarrow>
          \<lparr>status = InternalServerError, message = ''JSON encoding error'', data = None\<rparr>)"

text \<open>
  The accessors of the library the handler uses on the parsed request: \<open>contains\<close> is true
  only of an object that has the key; \<open>request[key]\<close> is read only behind \<open>contains\<close>, where
  it is the member's value (on an object without the key \<open>operator[]\<close> yields a null).
\<close>

definition contains :: "json \<Rightarrow> string \<Rightarrow> bool" where
  "contains j k = (case j of JObject members \<Rightarrow> map_of members k \<noteq> None | _ \<Rightarrow> False)"

definition member :: "json \<Rightarrow> string \<Rightarrow> json" where
  "member j k =
     (case j of
        JObject members \<Rightarrow> (case map_of members k of Some v \<Rightarrow> v | None \<Rightarrow> JNull)
      | _ \<Rightarrow> JNull)"

definition is_string :: "json \<Rightarrow> bool" where
  "is_string j = (case j of JString _ \<Rightarrow> True | _ \<Rightarrow> False)"

definition get_string :: "json \<Rightarrow> string" where
  "get_string j = (case j of JString s \<Rightarrow> s | _ \<Rightarrow> [])"

text \<open>
  Each handler parses the body, validates the fields in the source's order and calls the
  store. A \<open>parse_error\<close> is answered with 400 "Invalid JSON"; the last \<open>catch\<close> answers any
  other exception with 500 and its \<open>what()\<close> text, and \<open>parse\<close> is the only call in the \<open>try\<close>
  block that throws one (the store's operations are \<open>noexcept\<close>). \<open>handle_put\<close> returns the
  file system \<open>put_json\<close> leaves.
\<close>

definition handle_put ::
  "nlohmann \<Rightarrow> FileManager \<Rightarrow> write_outcome \<Rightarrow> filesystem \<Rightarrow> string \<Rightarrow> ApiResult \<times> filesystem" where
  "handle_put lib fm io fs request_body =
     (case parse lib request_body of
        ParseError \<Rightarrow> (\<lparr>status = BadRequest, message = ''Invalid JSON'', data = None\<rparr>, fs)
      | OtherException what \<Rightarrow>
          (\<lparr>status = InternalServerError, message = what, data = None\<rparr>, fs)
      | Parsed request \<Rightarrow>
          if \<not> contains request ''key'' \<or> \<not> is_string (member request ''key'') then
            (\<lparr>status = BadRequest, message = ''Missing or invalid 'key' field'', data = None\<rparr>, fs)
          else if \<not> contains request ''filename'' \<or> \<not> is_string (member request ''filename'') then
            (\<lparr>status = BadRequest, message = ''Missing or invalid 'filename' field'', data = None\<rparr>,
             fs)
          else if \<not> contains request ''data'' then
            (\<lparr>status = BadRequest, message = ''Missing 'data' field'', data = None\<rparr>, fs)
          else
            let key = get_string (member request ''key'');
                filename = get_string (member request ''filename'');
                payload = member request ''data''
            in (case put_json lib fm io fs key filename payload of
                  (Inl error, fs') \<Rightarrow> (file_error_to_api_result error, fs')
                | (Inr _, fs') \<Rightarrow> (\<lparr>status = Ok, message = ''success'', data = None\<rparr>, fs')))"

definition handle_get ::
  "nlohmann \<Rightarrow> FileManager \<Rightarrow> bool \<Rightarrow> filesystem \<Rightarrow> string \<Rightarrow> ApiResult" where
  "handle_get lib fm read_ok fs request_body =
     (case parse lib request_body of
        ParseError \<Rightarrow> \<lparr>status = BadRequest, message = ''Invalid JSON'', data = None\<rparr>
      | OtherException what \<Rightarrow> \<lparr>status = InternalServerError, message = what, data = None\<rparr>
      | Parsed request \<Rightarrow>
          if \<not> contains request ''key'' \<or> \<not> is_string (member request ''key'') then
            \<lparr>status = BadRequest, message = ''Missing or invalid 'key' field'', data = None\<rparr>
          else if \<not> contains request ''filename'' \<or> \<not> is_string (member request ''filename'') then
            \<lparr>status = BadRequest, message = ''Missing or invalid 'filename' field'', data = None\<rparr>
          else
            let key = get_string (member request ''key'');
                filename = get_string (member request ''filename'')
            in (case get_json lib fm read_ok fs key filename of
                  Inl error \<Rightarrow> file_error_to_api_result error
                | Inr document \<Rightarrow>
                    \<lparr>status = Ok, message = ''success'',
                     data = Some (JObject [(''data'', document)])\<rparr>))"

definition handle_list ::
  "nlohmann \<Rightarrow> FileManager \<Rightarrow> bool \<Rightarrow> filesystem \<Rightarrow> string \<Rightarrow> ApiResult" where
  "handle_list lib fm iterate_ok fs request_body =
     (case parse lib request_body of
        ParseError \<Rightarrow> \<lparr>status = BadRequest, message = ''Invalid JSON'', data = None\<rparr>
      | OtherException what \<Rightarrow> \<lparr>status = InternalServerError, message = what, data = None\<rparr>
      | Parsed request \<Rightarrow>
          if \<not> contains request ''key'' \<or> \<not> is_string (member request ''key'') then
            \<lparr>status = BadRequest, message = ''Missing or invalid 'key' field'', data = None\<rparr>
          else
            let key = get_string (member request ''key'')
            in (case list_files fm iterate_ok fs key of
                  Inl error \<Rightarrow> file_error_to_api_result error
                | Inr files \<Rightarrow>
                    \<lparr>status = Ok, message = ''success'',
                     data = Some (JObject [(''files'', JArray (map JString files))])\<rparr>))"

section \<open>The HTTP server (server/data\_server.cpp)\<close>

definition MAX_REQUEST_SIZE :: nat where
  "MAX_REQUEST_SIZE = 1024 * 1024"

definition status_to_string :: "HttpStatus \<Rightarrow> string" where
  "status_to_string st =
     (if status_to_int st = 200 then ''200 OK''
      else if status_to_int st = 400 then ''400 Bad Request''
      else if status_to_int st = 404 then ''404 Not Found''
      else if status_to_int st = 413 then ''413 Payload Too Large''
      else ''500 Internal Server Error'')"

text \<open>
  A response as it is handed to the transport: the status line, the content type and the
  JSON value whose compact serialisation is the body.
\<close>

record http_response =
  status_line :: string
  content_type :: string
  body :: json

definition send_response :: "nlohmann \<Rightarrow> ApiResult \<Rightarrow> http_response" where
  "send_response lib result =
     (let response_json = JObject [(''status'', JString (message result))];
          response_json' = (case data result of
                              None \<Rightarrow> response_json
                            | Some patch \<Rightarrow> merge_patch lib response_json patch)
      in \<lparr>status_line = status_to_string (status result),
          content_type = ''application/json'',
          body = response_json'\<rparr>)"

definition too_large_response :: http_response where
  "too_large_response =
     \<lparr>status_line = ''413 Payload Too Large'',
      content_type = ''application/json'',
      body = JObject [(''error'', JString ''Request body too large'')]\<rparr>"

text \<open>
  What one request owns and does: the shared \<open>body_buffer\<close>, the responses written to the
  transport so far, the bodies handed to the handler so far, and the file system the
  handler works on. The three routes register the same \<open>onData\<close> callback, each with its own
  handler function, which is the parameter \<open>handle\<close>.
\<close>

record request_state =
  body_buffer :: string
  written :: "http_response list"
  handled :: "string list"
  store :: filesystem

definition on_data ::
  "nlohmann \<Rightarrow> (filesystem \<Rightarrow> string \<Rightarrow> ApiResult \<times> filesystem) \<Rightarrow> request_state
     \<Rightarrow> string \<times> bool \<Rightarrow> request_state" where
  "on_data lib handle s event =
     (let chunk = fst event; is_last = snd event;
          s1 = s\<lparr>body_buffer := body_buffer s @ chunk\<rparr>
      in if length (body_buffer s1) > MAX_REQUEST_SIZE then
           s1\<lparr>written := written s1 @ [too_large_response]\<rparr>
         else if is_last then
           (case handle (store s1) (body_buffer s1) of
              (result, fs') \<Rightarrow>
                s1\<lparr>handled := handled s1 @ [body_buffer s1],
                   store := fs',
                   written := written s1 @ [send_response lib result]\<rparr>)
         else s1)"

definition put_route ::
  "nlohmann \<Rightarrow> FileManager \<Rightarrow> write_outcome \<Rightarrow> request_state \<Rightarrow> string \<times> bool \<Rightarrow> request_state" where
  "put_route lib fm io = on_data lib (handle_put lib fm io)"

definition get_route ::
  "nlohmann \<Rightarrow> FileManager \<Rightarrow> bool \<Rightarrow> request_state \<Rightarrow> string \<times> bool \<Rightarrow> request_state" where
  "get_route lib fm read_ok = on_data lib (\<lambda>fs request_body. (handle_get lib fm read_ok fs request_body, fs))"

definition list_route ::
  "nlohmann \<Rightarrow> FileManager \<Rightarrow> bool \<Rightarrow> request_state \<Rightarrow> string \<times> bool \<Rightarrow> request_state" where
  "list_route lib fm iterate_ok =
     on_data lib (\<lambda>fs request_body. (handle_list lib fm iterate_ok fs request_body, fs))"

text \<open>A request starts with an empty buffer; the transport then delivers its chunks in
  order, each with the flag that tells whether it is the last.\<close>

definition new_request :: "filesystem \<Rightarrow> request_state" where
  "new_request fs = \<lparr>body_buffer = [], written = [], handled = [], store = fs\<rparr>"

definition deliver ::
  "(request_state \<Rightarrow> string \<times> bool \<Rightarrow> request_state) \<Rightarrow> request_state \<Rightarrow> (string \<times> bool) list
     \<Rightarrow> request_state" where
  "deliver route s events = foldl route s events"

text \<open>The transport's contract: only the final chunk of a request carries the last flag.\<close>

definition last_flag_only_at_end :: "(string \<times> bool) list \<Rightarrow> bool" where
  "last_flag_only_at_end events = (filter snd (butlast events) = [])"

section \<open>Concrete inputs\<close>

text \<open>A serialiser and parser for the three JSON literals, to run the model on.\<close>

definition literal_dump :: "json \<Rightarrow> string option" where
  "literal_dump j =
     (case j of
        JNull \<Rightarrow> Some ''null''
      | JBool b \<Rightarrow> Some (if b then ''true'' else ''false'')
      | _ \<Rightarrow> None)"

definition literal_parse :: "string \<Rightarrow> parse_result" where
  "literal_parse s =
     (if s = ''null'' then Parsed JNull
      else if s = ''true'' then Parsed (JBool True)
      else if s = ''false'' then Parsed (JBool False)
      else ParseError)"

definition literals :: nlohmann where
  "literals = \<lparr>dump = literal_dump, parse = literal_parse, merge_patch = (\<lambda>target patch. target)\<rparr>"

definition data_fm :: FileManager where
  "data_fm = \<lparr>data_directory = ''data''\<rparr>"

text \<open>A data directory with one key directory, \<open>data/k\<close>, and nothing in it.\<close>

definition empty_key_fs :: filesystem where
  "empty_key_fs = [(''data'', Directory), (''data/k'', Directory)]"

text \<open>Library doubles whose \<open>dump\<close>, or whose \<open>parse\<close>, yields one fixed result.\<close>

definition fixed_dump :: "string \<Rightarrow> nlohmann" where
  "fixed_dump s = literals\<lparr>dump := (\<lambda>_. Some s)\<rparr>"

definition fixed_parse :: "json \<Rightarrow> nlohmann" where
  "fixed_parse request = literals\<lparr>parse := (\<lambda>_. Parsed request)\<rparr>"

definition empty_key_request :: json where
  "empty_key_request =
     JObject [(''key'', JString []), (''filename'', JString ''a''), (''data'', JNull)]"

text \<open>A request to \<open>/api/put\<close> right after its first chunk, of 1 MiB + 1 byte, has been rejected.\<close>

definition oversized_chunk :: string where
  "oversized_chunk = replicate 1048577 CHR ''x''"

definition rejected_request :: request_state where
  "rejected_request =
     deliver (put_route literals data_fm WriteOk) (new_request empty_key_fs)
       [(oversized_chunk, False)]"

text \<open>The file system after \<open>put_json\<close> of the filenames \<open>b\<close>, then \<open>a\<close>, then \<open>c\<close> under the
  key \<open>k\<close>.\<close>

definition one_file_fs :: filesystem where
  "one_file_fs = [(''data'', Directory), (''data/k'', Directory),
     (''data/k/b.json'', RegularFile ''null'')]"

definition two_files_fs :: filesystem where
  "two_files_fs = [(''data'', Directory), (''data/k'', Directory),
     (''data/k/b.json'', RegularFile ''null''), (''data/k/a.json'', RegularFile ''true'')]"

definition three_files_fs :: filesystem where
  "three_files_fs = [(''data'', Directory), (''data/k'', Directory),
     (''data/k/b.json'', RegularFile ''null''), (''data/k/a.json'', RegularFile ''true''),
     (''data/k/c.json'', RegularFile ''false'')]"

section \<open>What a listing is expected to hold\<close>

text \<open>
  The names of the regular files directly inside the directory \<open>dir\<close> that end in
  \<open>.json\<close>, as a set: the entry's path is \<open>dir/name\<close> with \<open>name\<close> a single component.
\<close>

definition json_files_in :: "filesystem \<Rightarrow> string \<Rightarrow> string set" where
  "json_files_in fs dir =
     {name. name \<noteq> [] \<and> CHR ''/'' \<notin> set name \<and> suffix ''.json'' name
        \<and> (\<exists>content. map_of fs (dir @ ''/'' @ name) = Some (RegularFile content))}"

section \<open>Properties of the sanitisation\<close>

lemma foldl_sanitize_step_spec_scan: "foldl sanitize_step acc s = spec_scan acc s"
  by (induction s arbitrary: acc) (simp_all add: sanitize_step_def is_valid_json_character_def)

lemma spec_strip_snoc:
  "spec_strip (xs @ [c]) = (if c = CHR ''_'' \<or> c = CHR ''-'' then spec_strip xs else xs @ [c])"
  by (simp add: spec_strip_def)

lemma strip_trailing_spec_strip: "strip_trailing r = spec_strip r"
proof (induction r rule: strip_trailing.induct)
  case (1 r)
  show ?case
  proof (cases "r = []")
    case True
    then show ?thesis by (subst strip_trailing.simps) (simp add: spec_strip_def)
  next
    case False
    then obtain xs c where r: "r = xs @ [c]" by (meson rev_exhaust)
    show ?thesis
    proof (cases "c = CHR ''_'' \<or> c = CHR ''-''")
      case True
      then have "strip_trailing r = strip_trailing xs"
        unfolding r by (subst strip_trailing.simps) simp
      also have "\<dots> = spec_strip xs" using 1 [unfolded r] True by simp
      finally show ?thesis unfolding r using True by (simp add: spec_strip_snoc)
    next
      case stop: False
      then have "strip_trailing r = r"
        unfolding r by (subst strip_trailing.simps) simp
      then show ?thesis unfolding r using stop by (simp add: spec_strip_snoc)
    qed
  qed
qed

lemma set_strip_trailing: "set (strip_trailing r) \<subseteq> set r"
proof (induction r rule: strip_trailing.induct)
  case (1 r)
  show ?case
  proof (cases "r \<noteq> [] \<and> (last r = CHR ''_'' \<or> last r = CHR ''-'')")
    case True
    then have "strip_trailing r = strip_trailing (butlast r)"
      by (subst strip_trailing.simps) simp
    moreover have "set (butlast r) \<subseteq> set r" by (meson in_set_butlastD subsetI)
    ultimately show ?thesis using 1 True by auto
  next
    case False
    then have "strip_trailing r = r" by (subst strip_trailing.simps) auto
    then show ?thesis by simp
  qed
qed

lemma set_foldl_sanitize_step:
  "set (foldl sanitize_step acc s) \<subseteq> set acc \<union> {c. is_valid_json_character c}"
proof (induction s arbitrary: acc)
  case Nil
  show ?case by simp
next
  case (Cons c cs)
  have "set (sanitize_step acc c) \<subseteq> set acc \<union> {c. is_valid_json_character c}"
    by (auto simp: sanitize_step_def is_valid_json_character_def)
  with Cons [of "sanitize_step acc c"] show ?case by auto
qed

lemma valid_character_not_separator:
  "is_valid_json_character c \<Longrightarrow>
     c \<noteq> CHR ''/'' \<and> c \<noteq> CHR 0x5C \<and> c \<noteq> CHR 0x00 \<and> c \<noteq> CHR ''.''"
  by (auto simp: is_valid_json_character_def isalnum_def)

lemma sanitize_filename_charset:
  "c \<in> set (sanitize_filename raw) \<Longrightarrow> is_valid_json_character c"
  using set_strip_trailing [of "foldl sanitize_step [] raw"]
    set_foldl_sanitize_step [of "[]" raw]
  by (auto simp: sanitize_filename_def)

lemma ensure_json_extension_no_dot:
  assumes "CHR ''.'' \<notin> set name"
  shows "ensure_json_extension name = name @ ''.json''"
proof -
  have "drop n name \<noteq> ''.json''" for n
  proof
    assume "drop n name = ''.json''"
    then have "CHR ''.'' \<in> set (drop n name)" by simp
    then show False using assms by (meson in_set_dropD)
  qed
  then show ?thesis by (simp add: ensure_json_extension_def JSON_EXTENSION_def)
qed

lemma split_path_no_slash: "CHR ''/'' \<notin> set n \<Longrightarrow> split_path n = [n]"
  by (induction n) auto

lemma split_path_nonempty: "split_path a \<noteq> []"
  by (induction a) (auto split: list.splits)

lemma split_path_append_component:
  "CHR ''/'' \<notin> set n \<Longrightarrow> split_path (a @ CHR ''/'' # n) = split_path a @ [n]"
proof (induction a)
  case Nil
  then show ?case by (simp add: split_path_no_slash)
next
  case (Cons c a)
  then show ?case by (cases "split_path a") (auto simp: split_path_nonempty)
qed

lemma resolve_path_child:
  assumes "CHR ''/'' \<notin> set n" "n \<noteq> []" "n \<noteq> ''.''" "n \<noteq> ''..''"
  shows "resolve_path (a @ ''/'' @ n) = resolve_path a @ [n]"
  using assms by (simp add: resolve_path_def split_path_append_component walk_step_def)

lemma strip_trailing_all_stripped:
  "\<forall>c\<in>set r. c = CHR ''_'' \<or> c = CHR ''-'' \<Longrightarrow> strip_trailing r = []"
proof (induction r rule: strip_trailing.induct)
  case (1 r)
  show ?case
  proof (cases "r = []")
    case True
    then show ?thesis by (subst strip_trailing.simps) simp
  next
    case False
    then have l: "last r = CHR ''_'' \<or> last r = CHR ''-''" using 1(2) last_in_set by blast
    have "\<forall>c\<in>set (butlast r). c = CHR ''_'' \<or> c = CHR ''-''"
      using 1(2) by (meson in_set_butlastD)
    then have "strip_trailing (butlast r) = []" using 1(1) False l by blast
    then show ?thesis using False l by (subst strip_trailing.simps) simp
  qed
qed

lemma foldl_sanitize_step_no_alnum:
  "\<forall>c\<in>set s. \<not> isalnum c \<Longrightarrow> \<forall>c\<in>set acc. c = CHR ''_'' \<or> c = CHR ''-'' \<Longrightarrow>
     \<forall>c\<in>set (foldl sanitize_step acc s). c = CHR ''_'' \<or> c = CHR ''-''"
proof (induction s arbitrary: acc)
  case Nil
  then show ?case by simp
next
  case (Cons c cs)
  have "\<forall>x\<in>set (sanitize_step acc c). x = CHR ''_'' \<or> x = CHR ''-''"
    using Cons.prems by (auto simp: sanitize_step_def is_valid_json_character_def)
  then show ?case using Cons.IH [of "sanitize_step acc c"] Cons.prems(1) by simp
qed

lemma sanitize_filename_no_alnum:
  "\<forall>c\<in>set s. \<not> isalnum c \<Longrightarrow> sanitize_filename s = []"
  unfolding sanitize_filename_def
  by (rule strip_trailing_all_stripped) (use foldl_sanitize_step_no_alnum [of s "[]"] in simp)

lemma dots_are_not_collapsed: "sanitize_filename ''a..b'' = ''a__b''"
  by code_simp

text \<open>
  Claim C1. For every raw filename the sanitised name contains no \<open>/\<close>, no backslash, no
  null character and no \<open>.\<close>. Hence \<open>ensure_json_extension\<close> always appends \<open>.json\<close>, and
  the path \<open>get_file_path\<close> builds for any key is the key directory's path followed by
  exactly one more component, the file name: component by component, and after the walk
  that resolves \<open>.\<close> and \<open>..\<close>. The path is a direct child of the key directory and never
  resolves outside it.
\<close>

theorem sanitized_path_is_direct_child:
  "CHR ''/'' \<notin> set (sanitize_filename raw)
   \<and> CHR 0x5C \<notin> set (sanitize_filename raw)
   \<and> CHR 0x00 \<notin> set (sanitize_filename raw)
   \<and> CHR ''.'' \<notin> set (sanitize_filename raw)
   \<and> ensure_json_extension (sanitize_filename raw) = sanitize_filename raw @ ''.json''
   \<and> split_path (get_file_path fm key (ensure_json_extension (sanitize_filename raw)))
       = split_path (get_key_directory fm key) @ [ensure_json_extension (sanitize_filename raw)]
   \<and> resolve_path (get_file_path fm key (ensure_json_extension (sanitize_filename raw)))
       = resolve_path (get_key_directory fm key) @ [ensure_json_extension (sanitize_filename raw)]"
proof -
  let ?s = "sanitize_filename raw"
  have chars: "CHR ''/'' \<notin> set ?s" "CHR 0x5C \<notin> set ?s" "CHR 0x00 \<notin> set ?s" "CHR ''.'' \<notin> set ?s"
    using sanitize_filename_charset [of _ raw] valid_character_not_separator by blast+
  have ext: "ensure_json_extension ?s = ?s @ ''.json''"
    using chars(4) by (rule ensure_json_extension_no_dot)
  have slash: "CHR ''/'' \<notin> set (?s @ ''.json'')" using chars(1) by simp
  have comps: "split_path (get_file_path fm key (?s @ ''.json''))
      = split_path (get_key_directory fm key) @ [?s @ ''.json'']"
    using split_path_append_component [OF slash] by (simp add: get_file_path_def)
  have "resolve_path (get_key_directory fm key @ ''/'' @ (?s @ ''.json''))
      = resolve_path (get_key_directory fm key) @ [?s @ ''.json'']"
    using slash by (intro resolve_path_child) simp_all
  then have res: "resolve_path (get_file_path fm key (?s @ ''.json''))
      = resolve_path (get_key_directory fm key) @ [?s @ ''.json'']"
    by (simp add: get_file_path_def)
  show ?thesis using chars ext comps res by simp
qed

theorem sanitized_path_is_direct_child_witness:
  "sanitize_filename traversal_name = ''____etcpasswd''
   \<and> CHR ''.'' \<notin> set (sanitize_filename traversal_name)
   \<and> ensure_json_extension (sanitize_filename traversal_name)
       = sanitize_filename traversal_name @ ''.json''
   \<and> resolve_path (get_file_path \<lparr>data_directory = ''data''\<rparr> ''k''
         (ensure_json_extension (sanitize_filename traversal_name)))
       = resolve_path (get_key_directory \<lparr>data_directory = ''data''\<rparr> ''k'')
           @ [ensure_json_extension (sanitize_filename traversal_name)]"
proof -
  have s: "sanitize_filename traversal_name = ''____etcpasswd''" by code_simp
  show ?thesis
    using s sanitized_path_is_direct_child
      [of traversal_name "\<lparr>data_directory = ''data''\<rparr>" "''k''"]
    by blast
qed

text \<open>
  Claim C2. On every input \<open>sanitize_filename\<close> computes the specification's reference
  transform \<open>spec_sanitize\<close>. It is a total function (the trailing loop terminates, the
  result is a plain string with no error value), and an input none of whose characters is
  alphanumeric sanitises to the empty string.
\<close>

theorem sanitize_filename_is_spec_transform:
  "sanitize_filename raw = spec_sanitize raw
   \<and> ((\<forall>c\<in>set raw. \<not> isalnum c) \<longrightarrow> sanitize_filename raw = [])"
  using sanitize_filename_no_alnum [of raw]
  by (simp add: sanitize_filename_def spec_sanitize_def foldl_sanitize_step_spec_scan
      strip_trailing_spec_strip)

theorem sanitize_filename_is_spec_transform_witness:
  "filter isalnum ''.-!/ _'' = []
   \<and> sanitize_filename ''.-!/ _'' = spec_sanitize ''.-!/ _''
   \<and> sanitize_filename ''.-!/ _'' = []"
proof -
  have h: "\<forall>c\<in>set ''.-!/ _''. \<not> isalnum c" by (simp add: isalnum_def)
  then have "filter isalnum ''.-!/ _'' = []" by (simp only: filter_empty_conv)
  then show ?thesis using h sanitize_filename_is_spec_transform [of "''.-!/ _''"] by blast
qed

section \<open>Properties of the document store\<close>

lemma put_json_error_keeps_store:
  "fst (put_json lib fm io fs key filename d)
     \<in> {Inl KeyDirectoryNotFound, Inl InvalidFilename, Inl FileTooLarge, Inl JsonEncodingError}
   \<Longrightarrow> snd (put_json lib fm io fs key filename d) = fs"
  by (auto simp: put_json_def Let_def split: if_splits option.splits prod.splits bool.splits)

lemma max_json_size: "MAX_JSON_SIZE_BYTES = 1048576"
  by (simp add: MAX_JSON_SIZE_BYTES_def)

lemma put_json_reaches_size_test:
  assumes "key \<noteq> []" "key_directory_exists fm fs key" "sanitize_filename filename \<noteq> []"
    "dump lib d = Some s"
  shows "fst (put_json lib fm io fs key filename d) = Inl FileTooLarge \<longleftrightarrow> 1048576 < length s"
  using assms
  by (auto simp: put_json_def Let_def max_json_size split: option.splits prod.splits bool.splits)

lemma put_json_too_large_only_if:
  "fst (put_json lib fm io fs key filename d) = Inl FileTooLarge
   \<Longrightarrow> \<exists>s. dump lib d = Some s \<and> 1048576 < length s"
  by (auto simp: put_json_def Let_def max_json_size split: if_splits option.splits prod.splits bool.splits)

lemma put_json_success:
  assumes "key \<noteq> []" "key_directory_exists fm fs key" "sanitize_filename filename \<noteq> []"
    "dump lib d = Some s" "length s \<le> 1048576"
    "\<not> is_directory fs (get_file_path fm key (ensure_json_extension (sanitize_filename filename)))"
  shows "put_json lib fm WriteOk fs key filename d =
    (Inr (), AList.update (get_file_path fm key (ensure_json_extension (sanitize_filename filename)))
        (RegularFile s)
        (AList.update (get_file_path fm key (ensure_json_extension (sanitize_filename filename)))
          (RegularFile []) fs))"
  using assms
  by (simp add: put_json_def Let_def max_json_size open_ofstream_def write_ofstream_def)

lemma get_json_reaches_size_test:
  assumes "key \<noteq> []" "filename \<noteq> []" "key_directory_exists fm fs key"
    "read_ifstream read_ok fs (get_file_path fm key (ensure_json_extension (sanitize_filename filename)))
       = Some content"
  shows "get_json lib fm read_ok fs key filename = Inl FileTooLarge \<longleftrightarrow> 1048576 < length content"
proof -
  have "path_exists fs (get_file_path fm key (ensure_json_extension (sanitize_filename filename)))"
    using assms(4)
    by (auto simp: read_ifstream_def path_exists_def split: if_splits option.splits node.splits)
  then show ?thesis using assms
    by (auto simp: get_json_def Let_def max_json_size split: option.splits parse_result.splits)
qed

lemma get_json_too_large_only_if:
  "get_json lib fm read_ok fs key filename = Inl FileTooLarge
   \<Longrightarrow> \<exists>content. read_ifstream read_ok fs
          (get_file_path fm key (ensure_json_extension (sanitize_filename filename))) = Some content
        \<and> 1048576 < length content"
  by (auto simp: get_json_def Let_def max_json_size
      split: if_splits option.splits parse_result.splits)

lemma key_directory_is_not_file_path: "get_key_directory fm key \<noteq> get_file_path fm key name"
  by (simp add: get_file_path_def)

lemma key_directory_exists_update:
  "key_directory_exists fm fs key \<Longrightarrow>
   key_directory_exists fm (AList.update (get_file_path fm key name) nd fs) key"
  by (simp add: key_directory_exists_def path_exists_def is_directory_def update_conv'
      key_directory_is_not_file_path Let_def)

lemma get_json_after_write:
  assumes "key \<noteq> []" "filename \<noteq> []" "key_directory_exists fm fs key"
    "map_of fs (get_file_path fm key (ensure_json_extension (sanitize_filename filename)))
       = Some (RegularFile s)"
    "length s \<le> 1048576" "parse lib s = Parsed d"
  shows "get_json lib fm True fs key filename = Inr d"
  using assms
  by (simp add: get_json_def Let_def path_exists_def read_ifstream_def max_json_size)

lemma sanitize_filename_Nil: "sanitize_filename [] = []"
  by (simp add: sanitize_filename_def strip_trailing.simps)

lemma put_then_get:
  assumes "key \<noteq> []" "key_directory_exists fm fs key" "sanitize_filename filename \<noteq> []"
    "dump lib d = Some s" "length s \<le> 1048576" "parse lib s = Parsed d"
    "\<not> is_directory fs (get_file_path fm key (ensure_json_extension (sanitize_filename filename)))"
  shows "fst (put_json lib fm WriteOk fs key filename d) = Inr ()
    \<and> get_json lib fm True (snd (put_json lib fm WriteOk fs key filename d)) key filename = Inr d"
proof -
  let ?p = "get_file_path fm key (ensure_json_extension (sanitize_filename filename))"
  let ?fs' = "AList.update ?p (RegularFile s) (AList.update ?p (RegularFile []) fs)"
  have put: "put_json lib fm WriteOk fs key filename d = (Inr (), ?fs')"
    using assms(1-5,7) by (rule put_json_success)
  have name: "filename \<noteq> []" using assms(3) sanitize_filename_Nil by auto
  have dir: "key_directory_exists fm ?fs' key"
    using assms(2) by (intro key_directory_exists_update)
  have stored: "map_of ?fs' ?p = Some (RegularFile s)" by (simp add: update_conv')
  have "get_json lib fm True ?fs' key filename = Inr d"
    using assms(1) name dir stored assms(5,6) by (rule get_json_after_write)
  then show ?thesis by (simp add: put)
qed

lemma sanitize_bang: "sanitize_filename ''!!!'' = []"
  by code_simp

lemma get_bang:
  "get_json lib data_fm True empty_key_fs ''k'' ''!!!'' = Inl FileNotFound"
  by (simp add: get_json_def sanitize_bang key_directory_exists_def get_key_directory_def
      get_file_path_def data_fm_def empty_key_fs_def path_exists_def is_directory_def
      ensure_json_extension_def JSON_EXTENSION_def Let_def)

lemma put_bang:
  "put_json lib data_fm io empty_key_fs ''k'' ''!!!'' d = (Inl InvalidFilename, empty_key_fs)"
  by (simp add: put_json_def sanitize_bang key_directory_exists_def get_key_directory_def
      data_fm_def empty_key_fs_def path_exists_def is_directory_def Let_def)


lemma empty_key_fs_has_k: "key_directory_exists data_fm empty_key_fs ''k''"
  by (simp add: key_directory_exists_def get_key_directory_def data_fm_def empty_key_fs_def
      path_exists_def is_directory_def)

lemma sanitize_a: "sanitize_filename ''a'' = ''a''"
  by code_simp

lemma a_json_not_directory:
  "\<not> is_directory empty_key_fs (get_file_path data_fm ''k'' (ensure_json_extension ''a''))"
  by (simp add: is_directory_def get_file_path_def get_key_directory_def data_fm_def
      empty_key_fs_def ensure_json_extension_def JSON_EXTENSION_def)

text \<open>
  Claim C3. For a non-empty key whose directory exists, a filename whose sanitised form is
  not empty, and a document whose compact serialisation \<open>s\<close> succeeds, is at most 1 MiB long
  and is parsed back by the library to the same document: when no input/output failure
  occurs (the file opens and is written in full, its path is not a directory, and it opens
  for reading), \<open>put_json\<close> succeeds and \<open>get_json\<close> with the same key and filename on the
  file system it leaves returns that document.
\<close>

theorem put_then_get_round_trip:
  assumes "key \<noteq> []"
    and "key_directory_exists fm fs key"
    and "sanitize_filename filename \<noteq> []"
    and "dump lib document = Some s"
    and "length s \<le> 1048576"
    and "parse lib s = Parsed document"
    and "\<not> is_directory fs (get_file_path fm key (ensure_json_extension (sanitize_filename filename)))"
  shows "fst (put_json lib fm WriteOk fs key filename document) = Inr ()
    \<and> get_json lib fm True (snd (put_json lib fm WriteOk fs key filename document)) key filename
        = Inr document"
  using assms by (rule put_then_get)

theorem put_then_get_round_trip_witness:
  "fst (put_json literals data_fm WriteOk empty_key_fs ''k'' ''a'' (JBool True)) = Inr ()
   \<and> get_json literals data_fm True
        (snd (put_json literals data_fm WriteOk empty_key_fs ''k'' ''a'' (JBool True))) ''k'' ''a''
       = Inr (JBool True)"
proof -
  have "dump literals (JBool True) = Some ''true''"
    and "parse literals ''true'' = Parsed (JBool True)"
    by (simp_all add: literals_def literal_dump_def literal_parse_def)
  moreover have "length ''true'' \<le> 1048576" by simp
  moreover have "sanitize_filename ''a'' \<noteq> []" by (simp add: sanitize_a)
  moreover have "\<not> is_directory empty_key_fs
      (get_file_path data_fm ''k'' (ensure_json_extension (sanitize_filename ''a'')))"
    using a_json_not_directory by (simp add: sanitize_a)
  ultimately show ?thesis
    using put_then_get_round_trip [of "''k''" data_fm empty_key_fs "''a''" literals "JBool True" "''true''"]
      empty_key_fs_has_k
    by simp
qed

text \<open>
  The failures after the checks. A write that the stream sees fail is \<open>IoError\<close>; bytes
  lost from the stream's buffer when it is closed are not seen, and \<open>put_json\<close> reports
  success over a truncated file. In \<open>get_json\<close> a failed read and an exception of \<open>parse\<close>
  other than \<open>parse_error\<close> are \<open>IoError\<close>.
\<close>

lemma put_json_write_failures:
  assumes "key \<noteq> []" "key_directory_exists fm fs key" "sanitize_filename filename \<noteq> []"
    "dump lib d = Some s" "length s \<le> 1048576"
    "\<not> is_directory fs (get_file_path fm key (ensure_json_extension (sanitize_filename filename)))"
  shows "fst (put_json lib fm OpenFails fs key filename d) = Inl IoError"
    and "fst (put_json lib fm (WriteFails n) fs key filename d) = Inl IoError"
    and "fst (put_json lib fm (FlushFails n) fs key filename d) = Inr ()"
    and "map_of (snd (put_json lib fm (FlushFails n) fs key filename d))
           (get_file_path fm key (ensure_json_extension (sanitize_filename filename)))
         = Some (RegularFile (take n s))"
  using assms
  by (simp_all add: put_json_def Let_def max_json_size open_ofstream_def write_ofstream_def
      update_conv')

lemma get_json_io_errors:
  assumes "key \<noteq> []" "filename \<noteq> []" "key_directory_exists fm fs key"
    "path_exists fs (get_file_path fm key (ensure_json_extension (sanitize_filename filename)))"
  shows "get_json lib fm False fs key filename = Inl IoError"
    and "is_directory fs (get_file_path fm key (ensure_json_extension (sanitize_filename filename)))
         \<Longrightarrow> get_json lib fm read_ok fs key filename = Inl IoError"
    and "read_ifstream read_ok fs
           (get_file_path fm key (ensure_json_extension (sanitize_filename filename))) = Some content
         \<Longrightarrow> length content \<le> 1048576 \<Longrightarrow> parse lib content = OtherException what
         \<Longrightarrow> get_json lib fm read_ok fs key filename = Inl IoError"
  using assms
  by (simp_all add: get_json_def Let_def max_json_size read_ifstream_def is_directory_def)

text \<open>\<open>get_json\<close> answers \<open>InvalidFilename\<close> for an empty key or an empty raw filename only.\<close>

lemma get_json_invalid_filename_iff:
  "get_json lib fm read_ok fs key filename = Inl InvalidFilename \<longleftrightarrow> key = [] \<or> filename = []"
  by (auto simp: get_json_def Let_def split: option.splits parse_result.splits)

text \<open>
  Claim C4. With the key directory \<open>data/k\<close> present, the filename \<open>!!!\<close> sanitises to the
  empty string and \<open>put_json\<close> fails with \<open>InvalidFilename\<close>; \<open>get_json\<close> does not: it only
  tests the raw filename for emptiness, goes on to look for \<open>data/k/.json\<close> and fails with
  \<open>FileNotFound\<close>, which the handler reports as 404 "File not found".
\<close>

theorem get_json_unsanitizable_name_is_file_not_found:
  "sanitize_filename ''!!!'' = []
   \<and> fst (put_json lib data_fm io empty_key_fs ''k'' ''!!!'' d) = Inl InvalidFilename
   \<and> get_json lib data_fm True empty_key_fs ''k'' ''!!!'' = Inl FileNotFound
   \<and> file_error_to_api_result FileNotFound
       = \<lparr>status = NotFound, message = ''File not found'', data = None\<rparr>"
  by (simp add: sanitize_bang put_bang get_bang file_error_to_api_result_def)

text \<open>
  Claim C6. Once \<open>put_json\<close> has passed its checks of the key, the key directory and the
  sanitised filename and the document has been serialised, it returns \<open>FileTooLarge\<close> if
  and only if the serialisation is strictly longer than 1048576 bytes; a serialisation of
  exactly 1048576 bytes is written and the call succeeds. \<open>FileTooLarge\<close> is returned by
  \<open>put_json\<close> in no other case. In the same way \<open>get_json\<close>, once it has read the file's
  content, returns \<open>FileTooLarge\<close> if and only if that content is strictly longer than
  1048576 bytes, and in no other case.
\<close>

theorem file_too_large_iff_strictly_over_limit:
  "(key \<noteq> [] \<and> key_directory_exists fm fs key \<and> sanitize_filename filename \<noteq> []
      \<and> dump lib d = Some s
     \<longrightarrow> (fst (put_json lib fm io fs key filename d) = Inl FileTooLarge \<longleftrightarrow> 1048576 < length s)
       \<and> (length s = 1048576
            \<and> \<not> is_directory fs
                  (get_file_path fm key (ensure_json_extension (sanitize_filename filename)))
          \<longrightarrow> fst (put_json lib fm WriteOk fs key filename d) = Inr ()))
   \<and> (fst (put_json lib fm io fs key filename d) = Inl FileTooLarge
     \<longrightarrow> (\<exists>s'. dump lib d = Some s' \<and> 1048576 < length s'))
   \<and> (key \<noteq> [] \<and> filename \<noteq> [] \<and> key_directory_exists fm fs key
      \<and> read_ifstream read_ok fs
           (get_file_path fm key (ensure_json_extension (sanitize_filename filename))) = Some content
     \<longrightarrow> (get_json lib fm read_ok fs key filename = Inl FileTooLarge \<longleftrightarrow> 1048576 < length content))
   \<and> (get_json lib fm read_ok fs key filename = Inl FileTooLarge
     \<longrightarrow> (\<exists>content'. read_ifstream read_ok fs
             (get_file_path fm key (ensure_json_extension (sanitize_filename filename)))
             = Some content'
          \<and> 1048576 < length content'))"
  using put_json_reaches_size_test [of key fm fs filename lib d s io]
    put_json_success [of key fm fs filename lib d s]
    put_json_too_large_only_if [of lib fm io fs key filename d]
    get_json_reaches_size_test [of key filename fm fs read_ok content lib]
    get_json_too_large_only_if [of lib fm read_ok fs key filename]
  by (intro conjI impI) (simp_all del: One_nat_def)

theorem file_too_large_iff_strictly_over_limit_witness:
  "fst (put_json (fixed_dump (replicate 1048576 CHR ''1'')) data_fm WriteOk empty_key_fs
          ''k'' ''a'' JNull) \<noteq> Inl FileTooLarge
   \<and> fst (put_json (fixed_dump (replicate 1048576 CHR ''1'')) data_fm WriteOk empty_key_fs
          ''k'' ''a'' JNull) = Inr ()"
proof -
  have "dump (fixed_dump (replicate 1048576 CHR ''1'')) JNull = Some (replicate 1048576 CHR ''1'')"
    by (simp add: fixed_dump_def)
  moreover have "length (replicate 1048576 CHR ''1'') = 1048576" by simp
  moreover have "sanitize_filename ''a'' \<noteq> []" by (simp add: sanitize_a)
  moreover have "\<not> is_directory empty_key_fs
      (get_file_path data_fm ''k'' (ensure_json_extension (sanitize_filename ''a'')))"
    using a_json_not_directory by (simp add: sanitize_a)
  ultimately show ?thesis
    using file_too_large_iff_strictly_over_limit
      [where key = "''k''" and fm = data_fm and fs = empty_key_fs and filename = "''a''"
        and lib = "fixed_dump (replicate 1048576 CHR ''1'')" and d = JNull
        and s = "replicate 1048576 CHR ''1''" and io = WriteOk]
      empty_key_fs_has_k
    by simp
qed

text \<open>
  Claim C10. Whenever \<open>put_json\<close> returns \<open>KeyDirectoryNotFound\<close>, \<open>InvalidFilename\<close>,
  \<open>FileTooLarge\<close> or \<open>JsonEncodingError\<close>, the file system it leaves is the one it was
  given: no file is created, emptied or changed.
\<close>

theorem put_json_validation_errors_leave_store_unchanged:
  "fst (put_json lib fm io fs key filename d)
     \<in> {Inl KeyDirectoryNotFound, Inl InvalidFilename, Inl FileTooLarge, Inl JsonEncodingError}
   \<Longrightarrow> snd (put_json lib fm io fs key filename d) = fs"
  by (rule put_json_error_keeps_store)


theorem put_json_validation_errors_leave_store_unchanged_witness:
  "fst (put_json literals data_fm WriteOk empty_key_fs ''nosuchkey'' ''a'' JNull)
     = Inl KeyDirectoryNotFound
   \<and> snd (put_json literals data_fm WriteOk empty_key_fs ''nosuchkey'' ''a'' JNull) = empty_key_fs"
proof -
  have h: "fst (put_json literals data_fm WriteOk empty_key_fs ''nosuchkey'' ''a'' JNull)
      = Inl KeyDirectoryNotFound"
    by (simp add: put_json_def key_directory_exists_def get_key_directory_def data_fm_def
        empty_key_fs_def path_exists_def is_directory_def)
  then show ?thesis
    using put_json_validation_errors_leave_store_unchanged
      [of literals data_fm WriteOk empty_key_fs "''nosuchkey''" "''a''" JNull]
    by simp
qed

lemma handle_list_empty_key:
  assumes "parse lib request_body = Parsed (JObject members)"
    and "map_of members ''key'' = Some (JString [])"
  shows "handle_list lib fm iterate_ok fs request_body
      = \<lparr>status = BadRequest, message = ''Invalid filename'', data = None\<rparr>"
  using assms
  by (simp add: handle_list_def contains_def member_def is_string_def get_string_def
      list_files_def file_error_to_api_result_def)

lemma handle_get_empty_key:
  assumes "parse lib request_body = Parsed (JObject members)"
    and "map_of members ''key'' = Some (JString [])"
    and "map_of members ''filename'' = Some (JString filename)"
  shows "handle_get lib fm read_ok fs request_body
      = \<lparr>status = BadRequest, message = ''Invalid filename'', data = None\<rparr>"
  using assms
  by (simp add: handle_get_def contains_def member_def is_string_def get_string_def
      get_json_def file_error_to_api_result_def)

lemma handle_put_empty_key:
  assumes "parse lib request_body = Parsed (JObject members)"
    and "map_of members ''key'' = Some (JString [])"
    and "map_of members ''filename'' = Some (JString filename)"
    and "map_of members ''data'' = Some payload"
  shows "handle_put lib fm io fs request_body
      = (\<lparr>status = BadRequest, message = ''Invalid filename'', data = None\<rparr>, fs)"
  using assms
  by (simp add: handle_put_def contains_def member_def is_string_def get_string_def
      put_json_def file_error_to_api_result_def)

text \<open>
  Claim C9. For the empty key, \<open>put_json\<close>, \<open>get_json\<close> and \<open>list_files\<close> return
  \<open>InvalidFilename\<close> whatever the file system holds and however its operations would end,
  and \<open>put_json\<close> leaves the file system as it is. A request whose \<open>key\<close> field is the empty
  string passes the handler's test that the field is present and a string, and each
  handler answers it with status 400 and the message "Invalid filename".
\<close>

theorem empty_key_is_invalid_filename:
  "put_json lib fm io fs [] filename d = (Inl InvalidFilename, fs)
   \<and> get_json lib fm read_ok fs [] filename = Inl InvalidFilename
   \<and> list_files fm iterate_ok fs [] = Inl InvalidFilename
   \<and> (parse lib request_body = Parsed (JObject members)
        \<and> map_of members ''key'' = Some (JString [])
      \<longrightarrow> contains (JObject members) ''key'' \<and> is_string (member (JObject members) ''key'')
        \<and> handle_list lib fm iterate_ok fs request_body
            = \<lparr>status = BadRequest, message = ''Invalid filename'', data = None\<rparr>
        \<and> (map_of members ''filename'' = Some (JString name)
           \<longrightarrow> handle_get lib fm read_ok fs request_body
                = \<lparr>status = BadRequest, message = ''Invalid filename'', data = None\<rparr>
             \<and> (map_of members ''data'' = Some payload
                \<longrightarrow> handle_put lib fm io fs request_body
                    = (\<lparr>status = BadRequest, message = ''Invalid filename'', data = None\<rparr>, fs))))
   \<and> status_to_int BadRequest = 400"
  using handle_list_empty_key [of lib request_body members fm iterate_ok fs]
    handle_get_empty_key [of lib request_body members name fm read_ok fs]
    handle_put_empty_key [of lib request_body members name payload fm io fs]
  by (simp add: put_json_def get_json_def list_files_def status_to_int_def contains_def
      member_def is_string_def)

theorem empty_key_is_invalid_filename_witness:
  "handle_put (fixed_parse empty_key_request) data_fm WriteOk empty_key_fs ''{}''
     = (\<lparr>status = BadRequest, message = ''Invalid filename'', data = None\<rparr>, empty_key_fs)
   \<and> handle_get (fixed_parse empty_key_request) data_fm True empty_key_fs ''{}''
     = \<lparr>status = BadRequest, message = ''Invalid filename'', data = None\<rparr>
   \<and> handle_list (fixed_parse empty_key_request) data_fm True empty_key_fs ''{}''
     = \<lparr>status = BadRequest, message = ''Invalid filename'', data = None\<rparr>"
proof -
  let ?members = "[(''key'', JString []), (''filename'', JString ''a''), (''data'', JNull)]"
  have "parse (fixed_parse empty_key_request) ''{}'' = Parsed (JObject ?members)"
    by (simp add: fixed_parse_def empty_key_request_def)
  moreover have "map_of ?members ''key'' = Some (JString [])"
    and "map_of ?members ''filename'' = Some (JString ''a'')"
    and "map_of ?members ''data'' = Some JNull"
    by simp_all
  ultimately show ?thesis
    using empty_key_is_invalid_filename
      [where lib = "fixed_parse empty_key_request" and request_body = "''{}''"
        and members = ?members and name = "''a''" and payload = JNull and fm = data_fm
        and io = WriteOk and fs = empty_key_fs and read_ok = True and iterate_ok = True]
    by blast
qed

section \<open>Properties of the request pipeline\<close>

lemma max_request_size: "MAX_REQUEST_SIZE = 1048576"
  by (simp add: MAX_REQUEST_SIZE_def)

lemma on_data_over_cap:
  assumes "1048576 < length (body_buffer s) + length (fst event)"
  shows "body_buffer (on_data lib handle s event) = body_buffer s @ fst event"
    and "written (on_data lib handle s event) = written s @ [too_large_response]"
    and "handled (on_data lib handle s event) = handled s"
    and "store (on_data lib handle s event) = store s"
  using assms by (simp_all add: on_data_def Let_def max_request_size)

lemma on_data_accumulating:
  assumes "length (body_buffer s) + length (fst event) \<le> 1048576" and "\<not> snd event"
  shows "body_buffer (on_data lib handle s event) = body_buffer s @ fst event"
    and "written (on_data lib handle s event) = written s"
    and "handled (on_data lib handle s event) = handled s"
    and "store (on_data lib handle s event) = store s"
  using assms by (simp_all add: on_data_def Let_def max_request_size)

lemma deliver_Cons:
  "deliver route s (event # events) = deliver route (route s event) events"
  by (simp add: deliver_def)

lemma deliver_Nil: "deliver route s [] = s"
  by (simp add: deliver_def)

lemma deliver_after_rejection:
  "1048576 < length (body_buffer s) \<Longrightarrow>
   body_buffer (deliver (on_data lib handle) s events) = body_buffer s @ concat (map fst events)
   \<and> written (deliver (on_data lib handle) s events)
       = written s @ replicate (length events) too_large_response
   \<and> handled (deliver (on_data lib handle) s events) = handled s
   \<and> store (deliver (on_data lib handle) s events) = store s"
proof (induction events arbitrary: s)
  case Nil
  show ?case by (simp add: deliver_Nil)
next
  case (Cons event events)
  have over: "1048576 < length (body_buffer s) + length (fst event)"
    using Cons.prems by simp
  have "1048576 < length (body_buffer (on_data lib handle s event))"
    using over by (simp add: on_data_over_cap(1) [OF over])
  from Cons.IH [OF this] show ?case
    by (simp add: deliver_Cons on_data_over_cap [OF over] replicate_append_same)
qed

lemma last_flag_only_at_end_Cons:
  "events \<noteq> [] \<Longrightarrow> last_flag_only_at_end (event # events)
     \<longleftrightarrow> \<not> snd event \<and> last_flag_only_at_end events"
  by (simp add: last_flag_only_at_end_def)

lemma deliver_oversized:
  "last_flag_only_at_end events \<Longrightarrow> length (body_buffer s) \<le> 1048576 \<Longrightarrow>
   1048576 < length (body_buffer s) + length (concat (map fst events)) \<Longrightarrow>
   handled (deliver (on_data lib handle) s events) = handled s
   \<and> store (deliver (on_data lib handle) s events) = store s
   \<and> (\<exists>n. written (deliver (on_data lib handle) s events)
          = written s @ replicate (Suc n) too_large_response)"
proof (induction events arbitrary: s)
  case Nil
  then show ?case by simp
next
  case (Cons event events)
  show ?case
  proof (cases "1048576 < length (body_buffer s) + length (fst event)")
    case True
    have rejected: "1048576 < length (body_buffer (on_data lib handle s event))"
      using True by (simp add: on_data_over_cap(1) [OF True])
    have "written (deliver (on_data lib handle) s (event # events))
        = written s @ replicate (Suc (length events)) too_large_response"
      using deliver_after_rejection [OF rejected, of lib handle events]
      by (simp add: deliver_Cons on_data_over_cap [OF True] replicate_append_same)
    then show ?thesis
      using deliver_after_rejection [OF rejected, of lib handle events]
      by (auto simp: deliver_Cons on_data_over_cap [OF True])
  next
    case False
    then have below: "length (body_buffer s) + length (fst event) \<le> 1048576" by simp
    have more: "events \<noteq> []" using Cons.prems(3) below by auto
    then have flags: "\<not> snd event" "last_flag_only_at_end events"
      using Cons.prems(1) by (simp_all add: last_flag_only_at_end_Cons)
    let ?s1 = "on_data lib handle s event"
    have "length (body_buffer ?s1) \<le> 1048576"
      using below by (simp add: on_data_accumulating(1) [OF below flags(1)])
    moreover have "1048576 < length (body_buffer ?s1) + length (concat (map fst events))"
      using Cons.prems(3) by (simp add: on_data_accumulating(1) [OF below flags(1)])
    ultimately show ?thesis
      using Cons.IH [OF flags(2), of ?s1]
      by (simp add: deliver_Cons on_data_accumulating [OF below flags(1)])
  qed
qed

text \<open>
  Claim C7. When the chunks delivered to \<open>/api/put\<close> for one request (the last flag, if
  any, on the final chunk) add up to more than 1048576 bytes, the handler is never invoked
  for that request (so the body is never parsed and the store is untouched), at least one
  response is written, and every response written is the 413 response whose body is
  \<open>{"error": "Request body too large"}\<close>.
\<close>

theorem oversized_put_body_never_reaches_handler:
  assumes "last_flag_only_at_end events"
    and "1048576 < length (concat (map fst events))"
  shows "handled (deliver (put_route lib fm io) (new_request fs) events) = []
    \<and> store (deliver (put_route lib fm io) (new_request fs) events) = fs
    \<and> written (deliver (put_route lib fm io) (new_request fs) events) \<noteq> []
    \<and> set (written (deliver (put_route lib fm io) (new_request fs) events)) = {too_large_response}
    \<and> status_line too_large_response = ''413 Payload Too Large''
    \<and> body too_large_response = JObject [(''error'', JString ''Request body too large'')]"
proof -
  have "length (body_buffer (new_request fs)) \<le> 1048576"
    and "1048576 < length (body_buffer (new_request fs)) + length (concat (map fst events))"
    using assms(2) by (simp_all add: new_request_def)
  from deliver_oversized [OF assms(1) this, of lib "handle_put lib fm io"]
  obtain n where "handled (deliver (put_route lib fm io) (new_request fs) events) = []"
    "store (deliver (put_route lib fm io) (new_request fs) events) = fs"
    "written (deliver (put_route lib fm io) (new_request fs) events)
      = replicate (Suc n) too_large_response"
    by (auto simp: put_route_def new_request_def)
  moreover have "status_line too_large_response = ''413 Payload Too Large''"
    and "body too_large_response = JObject [(''error'', JString ''Request body too large'')]"
    by (simp_all add: too_large_response_def)
  ultimately show ?thesis by auto
qed

theorem oversized_put_body_never_reaches_handler_witness:
  "handled (deliver (put_route literals data_fm WriteOk) (new_request empty_key_fs)
      [(replicate 1048576 CHR ''x'', False), (''y'', True)]) = []
   \<and> set (written (deliver (put_route literals data_fm WriteOk) (new_request empty_key_fs)
      [(replicate 1048576 CHR ''x'', False), (''y'', True)])) = {too_large_response}"
proof -
  have "last_flag_only_at_end [(replicate 1048576 CHR ''x'', False), (''y'', True)]"
    by (simp add: last_flag_only_at_end_def)
  moreover have "1048576 < length (concat (map fst [(replicate 1048576 CHR ''x'', False), (''y'', True)]))"
    by simp
  ultimately show ?thesis
    using oversized_put_body_never_reaches_handler
      [of "[(replicate 1048576 CHR ''x'', False), (''y'', True)]" literals data_fm WriteOk empty_key_fs]
    by blast
qed


lemma rejected_request_fields:
  "body_buffer rejected_request = oversized_chunk"
  "written rejected_request = [too_large_response]"
  "handled rejected_request = []"
  "store rejected_request = empty_key_fs"
proof -
  have over: "1048576 < length (body_buffer (new_request empty_key_fs))
      + length (fst (oversized_chunk, False))"
    by (simp add: new_request_def oversized_chunk_def)
  show "body_buffer rejected_request = oversized_chunk"
    "written rejected_request = [too_large_response]"
    "handled rejected_request = []"
    "store rejected_request = empty_key_fs"
    by (simp_all add: rejected_request_def put_route_def deliver_Cons deliver_Nil
        on_data_over_cap [OF over])
      (simp_all add: new_request_def)
qed

text \<open>
  Claim C8. The claim asks that, once a request has been rejected, later chunks are
  ignored: nothing more is appended and the response is written at most once. The callback
  does not do that. The request \<open>rejected_request\<close> has received one chunk of 1048577 bytes,
  not the last, and its 413 response has been written. When the final chunk \<open>y\<close> is
  delivered, a delivery within the transport's contract, the callback appends it to the
  buffer, which was over the limit already, and writes a second 413 response on the
  response it has ended.
\<close>

theorem rejected_request_appends_and_writes_again:
  "last_flag_only_at_end [(oversized_chunk, False), (''y'', True)]
   \<and> deliver (put_route literals data_fm WriteOk) (new_request empty_key_fs)
        [(oversized_chunk, False), (''y'', True)]
       = put_route literals data_fm WriteOk rejected_request (''y'', True)
   \<and> 1048576 < length (body_buffer rejected_request)
   \<and> written rejected_request = [too_large_response]
   \<and> body_buffer (put_route literals data_fm WriteOk rejected_request (''y'', True))
       = body_buffer rejected_request @ ''y''
   \<and> written (put_route literals data_fm WriteOk rejected_request (''y'', True))
       = [too_large_response, too_large_response]"
proof -
  have contract: "last_flag_only_at_end [(oversized_chunk, False), (''y'', True)]"
    by (simp add: last_flag_only_at_end_def)
  have run: "deliver (put_route literals data_fm WriteOk) (new_request empty_key_fs)
        [(oversized_chunk, False), (''y'', True)]
       = put_route literals data_fm WriteOk rejected_request (''y'', True)"
    by (simp add: rejected_request_def deliver_Cons deliver_Nil)
  have over: "1048576 < length (body_buffer rejected_request) + length (fst (''y'', True))"
    by (simp add: rejected_request_fields oversized_chunk_def)
  have "1048576 < length (body_buffer rejected_request)"
    by (simp add: rejected_request_fields oversized_chunk_def)
  moreover have "body_buffer (put_route literals data_fm WriteOk rejected_request (''y'', True))
       = body_buffer rejected_request @ ''y''"
    by (simp add: put_route_def on_data_over_cap [OF over])
  moreover have "written (put_route literals data_fm WriteOk rejected_request (''y'', True))
       = [too_large_response, too_large_response]"
    by (simp add: put_route_def on_data_over_cap [OF over] rejected_request_fields)
  ultimately show ?thesis using contract run rejected_request_fields(2) by blast
qed

section \<open>Properties of the listing\<close>

lemma ends_with_iff_suffix:
  "(length e \<le> length n \<and> drop (length n - length e) n = e) \<longleftrightarrow> suffix e n"
proof
  assume "length e \<le> length n \<and> drop (length n - length e) n = e"
  then have "n = take (length n - length e) n @ e" by (metis append_take_drop_id)
  then show "suffix e n" by (metis suffixI)
next
  assume "suffix e n"
  then obtain zs where "n = zs @ e" by (auto simp: suffix_def)
  then show "length e \<le> length n \<and> drop (length n - length e) n = e" by simp
qed

lemma list_step_filter:
  "foldl list_step acc es
     = acc @ map fst (filter (\<lambda>e. is_regular_file (snd e) \<and> suffix ''.json'' (fst e)) es)"
proof (induction es arbitrary: acc)
  case Nil
  show ?case by simp
next
  case (Cons e es)
  have "list_step acc e
      = (if is_regular_file (snd e) \<and> suffix ''.json'' (fst e) then acc @ [fst e] else acc)"
    using ends_with_iff_suffix [of "''.json''" "fst e"]
    by (simp add: list_step_def JSON_EXTENSION_def Let_def)
  then show ?case using Cons [of "list_step acc e"] by simp
qed

lemma entry_name_Some:
  "entry_name dir p = Some n \<longleftrightarrow> p = dir @ ''/'' @ n \<and> n \<noteq> [] \<and> CHR ''/'' \<notin> set n"
proof -
  have "take (length (dir @ ''/'')) p = dir @ ''/'' \<and> drop (length (dir @ ''/'')) p = n
      \<longleftrightarrow> p = (dir @ ''/'') @ n"
    by (metis append_eq_conv_conj)
  then show ?thesis by (auto simp: entry_name_def Let_def)
qed

lemma in_set_map_filter:
  "y \<in> set (List.map_filter g xs) \<longleftrightarrow> (\<exists>x\<in>set xs. g x = Some y)"
  by (induction xs) (auto split: option.splits)

lemma in_clearjunk: "(p, nd) \<in> set (AList.clearjunk fs) \<longleftrightarrow> map_of fs p = Some nd"
  using map_of_eq_Some_iff [OF distinct_clearjunk, of fs p nd] by (simp add: map_of_clearjunk)

lemma set_directory_iterator:
  "(n, nd) \<in> set (directory_iterator fs dir)
     \<longleftrightarrow> n \<noteq> [] \<and> CHR ''/'' \<notin> set n \<and> map_of fs (dir @ ''/'' @ n) = Some nd"
proof
  assume "(n, nd) \<in> set (directory_iterator fs dir)"
  then show "n \<noteq> [] \<and> CHR ''/'' \<notin> set n \<and> map_of fs (dir @ ''/'' @ n) = Some nd"
    by (auto simp: directory_iterator_def in_set_map_filter entry_name_Some in_clearjunk)
next
  assume h: "n \<noteq> [] \<and> CHR ''/'' \<notin> set n \<and> map_of fs (dir @ ''/'' @ n) = Some nd"
  then have "(dir @ ''/'' @ n, nd) \<in> set (AList.clearjunk fs)" by (simp add: in_clearjunk)
  moreover have "entry_name dir (dir @ ''/'' @ n) = Some n" using h by (simp add: entry_name_Some)
  ultimately show "(n, nd) \<in> set (directory_iterator fs dir)"
    unfolding directory_iterator_def in_set_map_filter by force
qed

lemma distinct_entries:
  "distinct (map fst xs) \<Longrightarrow>
   distinct (map fst (List.map_filter
      (\<lambda>(p, nd). map_option (\<lambda>name. (name, nd)) (entry_name dir p)) xs))"
proof (induction xs)
  case Nil
  show ?case by simp
next
  case (Cons x xs)
  obtain p nd where x: "x = (p, nd)" by (cases x)
  show ?case
  proof (cases "entry_name dir p")
    case None
    then show ?thesis using Cons by (simp add: x)
  next
    case (Some n)
    have "n \<notin> fst ` set (List.map_filter
        (\<lambda>(p, nd). map_option (\<lambda>name. (name, nd)) (entry_name dir p)) xs)"
    proof
      assume "n \<in> fst ` set (List.map_filter
        (\<lambda>(p, nd). map_option (\<lambda>name. (name, nd)) (entry_name dir p)) xs)"
      then obtain q nd' where "(q, nd') \<in> set xs" "entry_name dir q = Some n"
        by (auto simp: in_set_map_filter)
      then have "q = p" using Some by (simp add: entry_name_Some)
      then show False using Cons.prems \<open>(q, nd') \<in> set xs\<close> x by force
    qed
    then show ?thesis using Cons Some by (simp add: x)
  qed
qed

lemma distinct_directory_iterator: "distinct (map fst (directory_iterator fs dir))"
  unfolding directory_iterator_def by (rule distinct_entries) (rule distinct_clearjunk)

lemma list_files_success:
  assumes "key \<noteq> []" "key_directory_exists fm fs key"
  shows "list_files fm True fs key
     = Inr (sort (map fst (filter (\<lambda>e. is_regular_file (snd e) \<and> suffix ''.json'' (fst e))
              (directory_iterator fs (get_key_directory fm key)))))"
  using assms by (simp add: list_files_def list_step_filter)

lemma list_files_sorted_distinct_set:
  assumes "list_files fm iterate_ok fs key = Inr files"
  shows "sorted files \<and> distinct files \<and> set files = json_files_in fs (get_key_directory fm key)"
proof -
  let ?P = "\<lambda>e. is_regular_file (snd e) \<and> suffix ''.json'' (fst e)"
  let ?es = "directory_iterator fs (get_key_directory fm key)"
  have files: "files = sort (map fst (filter ?P ?es))"
    using assms by (auto simp: list_files_def list_step_filter Let_def split: if_splits)
  have "distinct (map fst (filter ?P ?es))"
    using distinct_directory_iterator by (rule distinct_map_filter)
  moreover have "set (map fst (filter ?P ?es)) = json_files_in fs (get_key_directory fm key)"
  proof (intro set_eqI iffI)
    fix n assume "n \<in> set (map fst (filter ?P ?es))"
    then obtain nd where "(n, nd) \<in> set ?es" "is_regular_file nd" "suffix ''.json'' n"
      by auto
    then show "n \<in> json_files_in fs (get_key_directory fm key)"
      by (cases nd) (auto simp: set_directory_iterator json_files_in_def is_regular_file_def)
  next
    fix n assume "n \<in> json_files_in fs (get_key_directory fm key)"
    then obtain content where "(n, RegularFile content) \<in> set ?es" "suffix ''.json'' n"
      by (auto simp: set_directory_iterator json_files_in_def)
    then have "(n, RegularFile content) \<in> set (filter ?P ?es)"
      by (simp add: is_regular_file_def)
    then show "n \<in> set (map fst (filter ?P ?es))" by force
  qed
  ultimately show ?thesis by (simp add: files)
qed

lemma key_directory_exists_cong:
  "map_of fs' = map_of fs \<Longrightarrow> key_directory_exists fm fs' key = key_directory_exists fm fs key"
  by (simp add: key_directory_exists_def path_exists_def is_directory_def)

lemma list_files_depends_on_content:
  assumes "map_of fs' = map_of fs"
  shows "list_files fm iterate_ok fs' key = list_files fm iterate_ok fs key"
proof (cases "key \<noteq> [] \<and> key_directory_exists fm fs key \<and> iterate_ok")
  case False
  then show ?thesis using key_directory_exists_cong [OF assms, of fm key]
    by (auto simp: list_files_def)
next
  case True
  then have "key_directory_exists fm fs' key"
    using key_directory_exists_cong [OF assms, of fm key] by simp
  then obtain xs ys where xs: "list_files fm iterate_ok fs' key = Inr xs"
    and ys: "list_files fm iterate_ok fs key = Inr ys"
    using True by (auto simp: list_files_def)
  have "json_files_in fs' (get_key_directory fm key) = json_files_in fs (get_key_directory fm key)"
    by (simp add: json_files_in_def assms)
  then have "xs = ys"
    using list_files_sorted_distinct_set [OF xs] list_files_sorted_distinct_set [OF ys]
    by (intro sorted_distinct_set_unique) simp_all
  then show ?thesis by (simp add: xs ys)
qed


lemma sanitized_name_with_extension:
  "ensure_json_extension (sanitize_filename raw) = sanitize_filename raw @ ''.json''
   \<and> CHR ''/'' \<notin> set (sanitize_filename raw @ ''.json'')"
proof -
  have "CHR ''.'' \<notin> set (sanitize_filename raw)" "CHR ''/'' \<notin> set (sanitize_filename raw)"
    using sanitize_filename_charset [of _ raw] valid_character_not_separator by blast+
  then show ?thesis by (simp add: ensure_json_extension_no_dot)
qed

lemma put_json_stores:
  assumes "put_json lib fm io fs key filename d = (Inr (), fs')"
  shows "key \<noteq> [] \<and> key_directory_exists fm fs key
    \<and> (\<exists>s. map_of fs' = (map_of fs)
          (get_key_directory fm key @ ''/'' @ (sanitize_filename filename @ ''.json'')
             \<mapsto> RegularFile s))"
  using assms sanitized_name_with_extension [of filename]
  by (auto simp: put_json_def Let_def open_ofstream_def write_ofstream_def update_conv'
      get_file_path_def
      split: if_splits option.splits write_outcome.splits)

lemma json_files_in_store:
  assumes "map_of fs' = (map_of fs)(dir @ ''/'' @ name \<mapsto> RegularFile s)"
    and "name \<noteq> []" "CHR ''/'' \<notin> set name" "suffix ''.json'' name"
  shows "json_files_in fs' dir = insert name (json_files_in fs dir)"
  using assms by (auto simp: json_files_in_def)

lemma key_directory_exists_store:
  assumes "map_of fs' = (map_of fs)(get_key_directory fm key @ ''/'' @ name \<mapsto> nd)"
    and "key_directory_exists fm fs key"
  shows "key_directory_exists fm fs' key"
  using assms by (simp add: key_directory_exists_def path_exists_def is_directory_def Let_def)

lemma put_json_adds_name:
  assumes "put_json lib fm io fs key filename d = (Inr (), fs')"
    and "sanitize_filename filename = stem" "stem \<noteq> []"
  shows "key_directory_exists fm fs' key
    \<and> json_files_in fs' (get_key_directory fm key)
        = insert (stem @ ''.json'') (json_files_in fs (get_key_directory fm key))"
proof -
  from put_json_stores [OF assms(1)] obtain s where
    dir: "key_directory_exists fm fs key"
    and m: "map_of fs' = (map_of fs)
          (get_key_directory fm key @ ''/'' @ (stem @ ''.json'') \<mapsto> RegularFile s)"
    by (auto simp: assms(2))
  have "CHR ''/'' \<notin> set (stem @ ''.json'')"
    using sanitized_name_with_extension [of filename] by (simp add: assms(2))
  moreover have "suffix ''.json'' (stem @ ''.json'')" by (metis suffixI)
  ultimately have "json_files_in fs' (get_key_directory fm key)
        = insert (stem @ ''.json'') (json_files_in fs (get_key_directory fm key))"
    using m by (intro json_files_in_store) simp_all
  then show ?thesis using key_directory_exists_store [OF m dir] by simp
qed

lemma sanitize_b: "sanitize_filename ''b'' = ''b''"
  by code_simp

lemma sanitize_c: "sanitize_filename ''c'' = ''c''"
  by code_simp

lemma abc_sorted:
  "sorted [''a.json'', ''b.json'', ''c.json''] \<and> distinct [''a.json'', ''b.json'', ''c.json'']"
  by (simp add: less_eq_char_def less_char_def)

lemma list_after_three_puts:
  assumes "list_files fm True fs key = Inr []"
    and "put_json lib fm io1 fs key ''b'' d1 = (Inr (), fs1)"
    and "put_json lib fm io2 fs1 key ''a'' d2 = (Inr (), fs2)"
    and "put_json lib fm io3 fs2 key ''c'' d3 = (Inr (), fs3)"
  shows "list_files fm True fs3 key = Inr [''a.json'', ''b.json'', ''c.json'']"
proof -
  let ?dir = "get_key_directory fm key"
  have "json_files_in fs ?dir = {}"
    using list_files_sorted_distinct_set [OF assms(1)] by simp
  moreover have "json_files_in fs1 ?dir = insert ''b.json'' (json_files_in fs ?dir)"
    using put_json_adds_name [OF assms(2) sanitize_b] by simp
  moreover have "json_files_in fs2 ?dir = insert ''a.json'' (json_files_in fs1 ?dir)"
    using put_json_adds_name [OF assms(3) sanitize_a] by simp
  moreover have "json_files_in fs3 ?dir = insert ''c.json'' (json_files_in fs2 ?dir)"
    and dir3: "key_directory_exists fm fs3 key"
    using put_json_adds_name [OF assms(4) sanitize_c] by simp_all
  ultimately have names: "json_files_in fs3 ?dir = set [''a.json'', ''b.json'', ''c.json'']"
    by auto
  have "key \<noteq> []" using put_json_stores [OF assms(2)] by simp
  then obtain files where files: "list_files fm True fs3 key = Inr files"
    using dir3 by (auto simp: list_files_def)
  have "files = [''a.json'', ''b.json'', ''c.json'']"
    using list_files_sorted_distinct_set [OF files] abc_sorted names
    by (intro sorted_distinct_set_unique) simp_all
  then show ?thesis using files by simp
qed

text \<open>The order is by byte value: upper case before lower case, a proper prefix first,
  bytes from 128 on after every ASCII character.\<close>

lemma byte_order_examples:
  "''B.json'' < ''a.json'' \<and> ''a.json'' < ''ab.json'' \<and> ''z.json'' < [CHR 0xC3, CHR 0xA9]"
  by (simp add: less_char_def)

lemmas fs_eval = key_directory_exists_def get_key_directory_def get_file_path_def data_fm_def
  path_exists_def is_directory_def Let_def ensure_json_extension_def JSON_EXTENSION_def
  open_ofstream_def write_ofstream_def MAX_JSON_SIZE_BYTES_def literals_def literal_dump_def

lemma list_empty_key_fs: "list_files data_fm True empty_key_fs ''k'' = Inr []"
  by (simp add: list_files_def fs_eval empty_key_fs_def directory_iterator_def entry_name_def)

lemma put_b:
  "put_json literals data_fm WriteOk empty_key_fs ''k'' ''b'' JNull = (Inr (), one_file_fs)"
  by (simp add: put_json_def sanitize_b fs_eval empty_key_fs_def one_file_fs_def)

lemma put_a:
  "put_json literals data_fm WriteOk one_file_fs ''k'' ''a'' (JBool True) = (Inr (), two_files_fs)"
  by (simp add: put_json_def sanitize_a fs_eval one_file_fs_def two_files_fs_def)

lemma put_c:
  "put_json literals data_fm WriteOk two_files_fs ''k'' ''c'' (JBool False)
     = (Inr (), three_files_fs)"
  by (simp add: put_json_def sanitize_c fs_eval two_files_fs_def three_files_fs_def)

text \<open>
  Claim C5. For a non-empty key whose directory exists (and an enumeration that does not
  fail), \<open>list_files\<close> returns a list that is sorted ascending in the byte-wise
  lexicographic order of strings, holds no name twice, and whose elements are exactly the
  names of the regular files directly inside the key directory that end in \<open>.json\<close>.
  After \<open>put_json\<close> has succeeded for the filenames \<open>b\<close>, \<open>a\<close> and \<open>c\<close> in a key directory
  that listed no file before, the list is \<open>a.json\<close>, \<open>b.json\<close>, \<open>c.json\<close>. The result depends
  only on what the file system holds, not on the order in which the directory is
  enumerated, so a repeated call with no write in between returns the identical list.
\<close>

theorem list_files_sorted_json_names:
  "(key \<noteq> [] \<and> key_directory_exists fm fs key
     \<longrightarrow> (\<exists>files. list_files fm True fs key = Inr files \<and> sorted files \<and> distinct files
            \<and> set files = json_files_in fs (get_key_directory fm key)))
   \<and> (list_files fm True fs key = Inr []
       \<and> put_json lib fm io_b fs key ''b'' d_b = (Inr (), fs_b)
       \<and> put_json lib fm io_a fs_b key ''a'' d_a = (Inr (), fs_a)
       \<and> put_json lib fm io_c fs_a key ''c'' d_c = (Inr (), fs_c)
     \<longrightarrow> list_files fm True fs_c key = Inr [''a.json'', ''b.json'', ''c.json''])
   \<and> (map_of fs' = map_of fs
     \<longrightarrow> list_files fm iterate_ok fs' key = list_files fm iterate_ok fs key)"
proof (intro conjI impI)
  assume "key \<noteq> [] \<and> key_directory_exists fm fs key"
  then obtain files where files: "list_files fm True fs key = Inr files"
    by (auto simp: list_files_def)
  then show "\<exists>files. list_files fm True fs key = Inr files \<and> sorted files \<and> distinct files
      \<and> set files = json_files_in fs (get_key_directory fm key)"
    using list_files_sorted_distinct_set [OF files] by simp
next
  assume "list_files fm True fs key = Inr []
       \<and> put_json lib fm io_b fs key ''b'' d_b = (Inr (), fs_b)
       \<and> put_json lib fm io_a fs_b key ''a'' d_a = (Inr (), fs_a)
       \<and> put_json lib fm io_c fs_a key ''c'' d_c = (Inr (), fs_c)"
  then show "list_files fm True fs_c key = Inr [''a.json'', ''b.json'', ''c.json'']"
    using list_after_three_puts [of fm fs key lib io_b d_b fs_b io_a d_a fs_a io_c d_c fs_c] by simp
next
  assume "map_of fs' = map_of fs"
  then show "list_files fm iterate_ok fs' key = list_files fm iterate_ok fs key"
    by (rule list_files_depends_on_content)
qed

theorem list_files_sorted_json_names_witness:
  "list_files data_fm True empty_key_fs ''k'' = Inr []
   \<and> put_json literals data_fm WriteOk empty_key_fs ''k'' ''b'' JNull = (Inr (), one_file_fs)
   \<and> put_json literals data_fm WriteOk one_file_fs ''k'' ''a'' (JBool True) = (Inr (), two_files_fs)
   \<and> put_json literals data_fm WriteOk two_files_fs ''k'' ''c'' (JBool False)
       = (Inr (), three_files_fs)
   \<and> list_files data_fm True three_files_fs ''k'' = Inr [''a.json'', ''b.json'', ''c.json'']"
  using list_empty_key_fs put_b put_a put_c
    list_files_sorted_json_names
      [where key = "''k''" and fm = data_fm and fs = empty_key_fs and lib = literals
        and io_b = WriteOk and d_b = JNull and fs_b = one_file_fs
        and io_a = WriteOk and d_a = "JBool True" and fs_a = two_files_fs
        and io_c = WriteOk and d_c = "JBool False" and fs_c = three_files_fs]
  by blast

end
